theory Spec2Isabelle
  imports Main
begin

section \<open>Data model (src/src/App.tsx, lines 8-29)\<close>

text \<open>
  \<^verbatim>\<open>type Player = 'X' | 'O'\<close>. The constructors are \<open>PX\<close> and \<open>PO\<close>, since \<open>O\<close> is
  taken by relation composition.
\<close>

datatype Player = PX | PO

text \<open>
  A slot of the board array. The declared element type is \<^verbatim>\<open>Player | null\<close>; a read
  past the end of a JavaScript array, and a slot skipped by an assignment past the end,
  give \<^verbatim>\<open>undefined\<close>, which is a third value: it is falsy like \<^verbatim>\<open>null\<close>, but
  \<^verbatim>\<open>undefined !== null\<close> holds.
\<close>

datatype square = Null | Mark Player | Undefined

type_synonym Board = "square list"

text \<open>\<^verbatim>\<open>Player | 'Draw' | null\<close> is \<open>outcome option\<close>, with \<open>None\<close> for \<^verbatim>\<open>null\<close>.\<close>

datatype outcome = Win Player | Draw

section \<open>Rules (src/src/App.tsx, lines 53-57 and 158-168)\<close>

text \<open>Truthiness of a slot: only a mark is truthy.\<close>

fun truthy :: "square \<Rightarrow> bool" where
  "truthy (Mark p) = True"
| "truthy Null = False"
| "truthy Undefined = False"

text \<open>\<^verbatim>\<open>squares[i]\<close>: out of range the read gives \<^verbatim>\<open>undefined\<close>.\<close>

definition at :: "Board \<Rightarrow> nat \<Rightarrow> square" where
  "at squares i = (if i < length squares then squares ! i else Undefined)"

definition winningCombinations :: "(nat \<times> nat \<times> nat) list" where
  "winningCombinations =
     [(0, 1, 2), (3, 4, 5), (6, 7, 8),
      (0, 3, 6), (1, 4, 7), (2, 5, 8),
      (0, 4, 8), (2, 4, 6)]"

text \<open>
  The \<^verbatim>\<open>for (const [a, b, c] of winningCombinations)\<close> loop of \<^verbatim>\<open>checkWinner\<close>, as a
  recursion over the remaining combinations. The test
  \<^verbatim>\<open>squares[a] && squares[a] === squares[b] && squares[a] === squares[c]\<close> can only pass
  when \<^verbatim>\<open>squares[a]\<close> is a mark, and the value returned is that mark.
\<close>

fun scanCombinations :: "Board \<Rightarrow> (nat \<times> nat \<times> nat) list \<Rightarrow> Player option" where
  "scanCombinations squares [] = None"
| "scanCombinations squares ((a, b, c) # rest) =
     (case at squares a of
        Mark p \<Rightarrow>
          if at squares a = at squares b \<and> at squares a = at squares c then Some p
          else scanCombinations squares rest
      | Null \<Rightarrow> scanCombinations squares rest
      | Undefined \<Rightarrow> scanCombinations squares rest)"

definition checkWinner :: "Board \<Rightarrow> outcome option" where
  "checkWinner squares =
     (case scanCombinations squares winningCombinations of
        Some p \<Rightarrow> Some (Win p)
      | None \<Rightarrow> if list_all (\<lambda>square. square \<noteq> Null) squares then Some Draw else None)"

text \<open>A combination is held by a mark when its three slots all carry that mark.\<close>

fun holds :: "Board \<Rightarrow> Player \<Rightarrow> nat \<times> nat \<times> nat \<Rightarrow> bool" where
  "holds squares p (a, b, c) =
     (at squares a = Mark p \<and> at squares b = Mark p \<and> at squares c = Mark p)"

text \<open>
  The lines of the 3 by 3 grid in row-major numbering, written from their geometry:
  row \<open>r\<close> is \<open>3r, 3r+1, 3r+2\<close>, column \<open>c\<close> is \<open>c, c+3, c+6\<close>, and the two diagonals.
\<close>

definition gridLines :: "(nat \<times> nat \<times> nat) set" where
  "gridLines =
     (\<lambda>r. (3 * r, 3 * r + 1, 3 * r + 2)) ` {0, 1, 2}
     \<union> (\<lambda>c. (c, c + 3, c + 6)) ` {0, 1, 2}
     \<union> {(0, 4, 8), (2, 4, 6)}"

section \<open>Component state (src/src/App.tsx, lines 10-46)\<close>

datatype GameMode = Local | Online

text \<open>The \<^verbatim>\<open>Date\<close> of a finished game is a number read from the clock.\<close>

record GameHistory =
  h_board :: Board
  h_winner :: "outcome option"
  timestamp :: nat

record PlayerInfo =
  name :: string
  score :: nat
  symbol :: Player

record OnlineGameState =
  roomCode :: string
  isHost :: bool
  connected :: bool
  playerId :: "string option"
  errorMessage :: "string option"

text \<open>The \<^verbatim>\<open>useState\<close> cells of the component; \<^verbatim>\<open>null\<close> is \<open>None\<close>.\<close>

record App =
  board :: Board
  currentPlayer :: Player
  winner :: "outcome option"
  gameMode :: "GameMode option"
  players :: "Player \<Rightarrow> PlayerInfo"
  gameHistory :: "GameHistory list"
  showHistory :: bool
  showSettings :: bool
  soundEnabled :: bool
  moveCount :: nat
  onlineGame :: "OnlineGameState option"
  joinCode :: string

definition initialApp :: App where
  "initialApp =
     \<lparr>board = replicate 9 Null, currentPlayer = PX, winner = None, gameMode = None,
      players = (\<lambda>p. case p of
                   PX \<Rightarrow> \<lparr>name = ''Player 1'', score = 0, symbol = PX\<rparr>
                 | PO \<Rightarrow> \<lparr>name = ''Player 2'', score = 0, symbol = PO\<rparr>),
      gameHistory = [], showHistory = False, showSettings = False, soundEnabled = True,
      moveCount = 0, onlineGame = None, joinCode = []\<rparr>"

section \<open>The room table (src/supabase/migrations/20250124094337_summer_castle.sql)\<close>

text \<open>The three values the client writes to the \<^verbatim>\<open>status\<close> text column.\<close>

datatype Status = waiting | playing | finished

text \<open>
  A row of \<^verbatim>\<open>game_rooms\<close>. The columns \<^verbatim>\<open>board\<close> and \<^verbatim>\<open>winner\<close> are \<open>r_board\<close> and
  \<open>r_winner\<close> here (the component state has fields of the same names). The columns
  \<^verbatim>\<open>id\<close>, \<^verbatim>\<open>created_at\<close> and \<^verbatim>\<open>updated_at\<close> are filled by their defaults and never read
  or written by the client; they are left out.
\<close>

record Room =
  code :: string
  host_id :: string
  guest_id :: "string option"
  r_board :: Board
  current_player :: Player
  r_winner :: "outcome option"
  status :: Status

text \<open>
  The world of one client: the component state, the user the Supabase client is signed
  in as (\<open>None\<close>: not signed in), and the table.
\<close>

record World =
  app :: App
  session :: "string option"
  game_rooms :: "Room list"

text \<open>
  Policy "Players can update their rooms" (lines 55-61): for the role
  \<^verbatim>\<open>authenticated\<close>, \<^verbatim>\<open>auth.uid() = host_id OR auth.uid() = guest_id\<close>, both as
  \<^verbatim>\<open>USING\<close> and as \<^verbatim>\<open>WITH CHECK\<close>. A comparison with a \<^verbatim>\<open>NULL\<close> guest is not true, and
  a request that is not signed in has no policy at all.
\<close>

definition players_can_update :: "string option \<Rightarrow> Room \<Rightarrow> bool" where
  "players_can_update uid r =
     (case uid of None \<Rightarrow> False | Some u \<Rightarrow> u = host_id r \<or> guest_id r = Some u)"

text \<open>
  \<^verbatim>\<open>.from('game_rooms').update(values)\<close> followed by filters: the rows that pass the
  filters and the \<^verbatim>\<open>USING\<close> expression are rewritten, the others are silently left
  alone; a rewritten row that fails \<^verbatim>\<open>WITH CHECK\<close> makes the whole statement fail
  (\<open>None\<close>). The result is the new table and the rewritten rows (what \<^verbatim>\<open>.select()\<close>
  returns). Every row the \<^verbatim>\<open>USING\<close> expression passes is also visible under the policy
  "Players can view their rooms", so that policy removes nothing more.
\<close>

definition update_rooms ::
  "string option \<Rightarrow> (Room \<Rightarrow> Room) \<Rightarrow> (Room \<Rightarrow> bool) \<Rightarrow> Room list \<Rightarrow> (Room list \<times> Room list) option"
where
  "update_rooms uid values filters rows =
     (let hit = (\<lambda>r. filters r \<and> players_can_update uid r);
          written = map values (filter hit rows)
      in if list_all (players_can_update uid) written
         then Some (map (\<lambda>r. if hit r then values r else r) rows, written)
         else None)"

text \<open>
  \<^verbatim>\<open>.insert([row])\<close>: policy "Anyone can create a room" admits every signed-in user;
  \<^verbatim>\<open>code text UNIQUE\<close> rejects a code that is already in the table.
\<close>

definition insert_room :: "string option \<Rightarrow> Room \<Rightarrow> Room list \<Rightarrow> Room list option" where
  "insert_room uid r rows =
     (if uid = None then None
      else if code r \<in> set (map code rows) then None
      else Some (rows @ [r]))"

text \<open>A board sent as JSON: \<^verbatim>\<open>undefined\<close> slots of an array are serialised as \<^verbatim>\<open>null\<close>.\<close>

definition toJSON :: "Board \<Rightarrow> Board" where
  "toJSON b = map (\<lambda>s. case s of Undefined \<Rightarrow> Null | Null \<Rightarrow> Null | Mark p \<Rightarrow> Mark p) b"

section \<open>Strings\<close>

text \<open>
  \<^verbatim>\<open>String.prototype.toUpperCase\<close> on ASCII text: the letters a-z (codes 97-122) move
  down by 32, every other character stays. Strings here are ASCII.
\<close>

definition upperChar :: "char \<Rightarrow> char" where
  "upperChar c =
     (if 97 \<le> (of_char c :: nat) \<and> (of_char c :: nat) \<le> 122
      then char_of ((of_char c :: nat) - 32) else c)"

definition toUpperCase :: "string \<Rightarrow> string" where
  "toUpperCase s = map upperChar s"

definition isUpper :: "char \<Rightarrow> bool" where
  "isUpper c = (65 \<le> (of_char c :: nat) \<and> (of_char c :: nat) \<le> 90)"

definition isLower :: "char \<Rightarrow> bool" where
  "isLower c = (97 \<le> (of_char c :: nat) \<and> (of_char c :: nat) \<le> 122)"

definition isDigit :: "char \<Rightarrow> bool" where
  "isDigit c = (48 \<le> (of_char c :: nat) \<and> (of_char c :: nat) \<le> 57)"

text \<open>
  \<^verbatim>\<open>nanoid\<close> is an external library; its result is an argument of \<open>createRoom\<close>.
  \<^verbatim>\<open>nanoid(n)\<close> returns \<open>n\<close> characters of the library's URL-friendly alphabet
  \<^verbatim>\<open>A-Za-z0-9_-\<close>.
\<close>

definition nanoidChar :: "char \<Rightarrow> bool" where
  "nanoidChar c = (isUpper c \<or> isLower c \<or> isDigit c \<or> c = CHR ''_'' \<or> c = CHR ''-'')"

definition nanoid_result :: "nat \<Rightarrow> string \<Rightarrow> bool" where
  "nanoid_result n s = (length s = n \<and> list_all nanoidChar s)"

text \<open>"Uppercase alphanumeric": A-Z and 0-9.\<close>

definition upperAlnum :: "char \<Rightarrow> bool" where
  "upperAlnum c = (isUpper c \<or> isDigit c)"

text \<open>
  Two strings that differ only in letter case: same length, and at each position the
  same character or the same letter in the two cases.
\<close>

definition sameButCase :: "string \<Rightarrow> string \<Rightarrow> bool" where
  "sameButCase s t =
     list_all2 (\<lambda>c d. c = d
        \<or> (isLower c \<and> isUpper d \<and> (of_char c :: nat) = of_char d + 32)
        \<or> (isUpper c \<and> isLower d \<and> (of_char d :: nat) = of_char c + 32)) s t"

section \<open>Client operations (src/src/App.tsx, lines 79-260)\<close>

text \<open>
  \<^verbatim>\<open>setOnlineGame(prev => ({ ...prev!, errorMessage: msg }))\<close>. Spreading \<^verbatim>\<open>null\<close> gives an
  object with the message alone; its other fields are \<^verbatim>\<open>undefined\<close>, and since the
  component only tests them for truthiness they are the falsy value of their type here.
\<close>

definition withError :: "string \<Rightarrow> OnlineGameState option \<Rightarrow> OnlineGameState option" where
  "withError msg prev =
     Some (case prev of
             None \<Rightarrow> \<lparr>roomCode = [], isHost = False, connected = False, playerId = None,
                      errorMessage = Some msg\<rparr>
           | Some g \<Rightarrow> g\<lparr>errorMessage := Some msg\<rparr>)"

definition setError :: "string \<Rightarrow> World \<Rightarrow> World" where
  "setError msg w = w\<lparr>app := (app w)\<lparr>onlineGame := withError msg (onlineGame (app w))\<rparr>\<rparr>"

text \<open>
  \<open>createRoom user nano\<close>: \<open>user\<close> is \<^verbatim>\<open>auth.user\<close> of the sign-up's answer (\<open>None\<close> when
  no user came back) and \<open>nano\<close> is the value of \<^verbatim>\<open>nanoid(6)\<close>. A sign-up that
  returns a user leaves the client signed in as that user. The row is inserted with the
  column defaults \<^verbatim>\<open>guest_id NULL\<close>, \<^verbatim>\<open>winner NULL\<close>, \<^verbatim>\<open>status 'waiting'\<close>.
\<close>

definition createRoom :: "string option \<Rightarrow> string \<Rightarrow> World \<Rightarrow> World" where
  "createRoom user nano w =
     (case user of
        None \<Rightarrow> setError ''Failed to create room'' w
      | Some uid \<Rightarrow>
          (let roomCode' = toUpperCase nano;
               w1 = w\<lparr>session := Some uid\<rparr>
           in case insert_room (Some uid)
                     \<lparr>code = roomCode', host_id = uid, guest_id = None,
                      r_board = toJSON (board (app w)), current_player = currentPlayer (app w),
                      r_winner = None, status = waiting\<rparr>
                     (game_rooms w1) of
                None \<Rightarrow> setError ''Failed to create room'' w1
              | Some rows \<Rightarrow>
                  w1\<lparr>game_rooms := rows,
                     app := (app w1)\<lparr>onlineGame :=
                       Some \<lparr>roomCode = roomCode', isHost = True, connected = True,
                             playerId = Some uid, errorMessage = None\<rparr>\<rparr>\<rparr>))"

text \<open>
  The filters of the join query: \<^verbatim>\<open>.eq('code', joinCode.toUpperCase())\<close>,
  \<^verbatim>\<open>.eq('status', 'waiting')\<close>, \<^verbatim>\<open>.is('guest_id', null)\<close>.
\<close>

definition joinFilters :: "string \<Rightarrow> Room \<Rightarrow> bool" where
  "joinFilters entered r =
     (code r = toUpperCase entered \<and> status r = waiting \<and> guest_id r = None)"

text \<open>
  \<open>joinRoom user\<close>, with \<open>user\<close> as in \<open>createRoom\<close>. \<^verbatim>\<open>.single()\<close> answers with an
  error unless exactly one row comes back.
\<close>

definition joinRoom :: "string option \<Rightarrow> World \<Rightarrow> World" where
  "joinRoom user w =
     (if joinCode (app w) = [] then w
      else case user of
        None \<Rightarrow> setError ''Failed to join room'' w
      | Some uid \<Rightarrow>
          (let w1 = w\<lparr>session := Some uid\<rparr>
           in case update_rooms (Some uid) (\<lambda>r. r\<lparr>guest_id := Some uid, status := playing\<rparr>)
                     (joinFilters (joinCode (app w))) (game_rooms w1) of
                None \<Rightarrow> setError ''Failed to join room'' w1
              | Some (rows, returned) \<Rightarrow>
                  if length returned = 1
                  then w1\<lparr>game_rooms := rows,
                          app := (app w1)\<lparr>onlineGame :=
                            Some \<lparr>roomCode = toUpperCase (joinCode (app w)), isHost = False,
                                  connected = True, playerId = Some uid,
                                  errorMessage = None\<rparr>\<rparr>\<rparr>
                  else setError ''Failed to join room'' (w1\<lparr>game_rooms := rows\<rparr>)))"

text \<open>\<^verbatim>\<open>onlineGame?.connected\<close> and \<^verbatim>\<open>onlineGame?.isHost ? 'X' : 'O'\<close>.\<close>

definition isConnected :: "OnlineGameState option \<Rightarrow> bool" where
  "isConnected og = (case og of None \<Rightarrow> False | Some g \<Rightarrow> connected g)"

definition ownMark :: "OnlineGameState option \<Rightarrow> Player" where
  "ownMark og = (if (case og of None \<Rightarrow> False | Some g \<Rightarrow> isHost g) then PX else PO)"

text \<open>The three early returns of \<^verbatim>\<open>handleClick\<close> (lines 171-174).\<close>

definition ignored :: "nat \<Rightarrow> World \<Rightarrow> bool" where
  "ignored index w =
     (if truthy (at (board (app w)) index) \<or> winner (app w) \<noteq> None then True
      else if gameMode (app w) = Some Online \<and> \<not> isConnected (onlineGame (app w)) then True
      else if gameMode (app w) = Some Online
              \<and> currentPlayer (app w) \<noteq> ownMark (onlineGame (app w)) then True
      else False)"

text \<open>
  \<^verbatim>\<open>newBoard[index] = v\<close> on the copy of the board: inside the array the slot is
  replaced; past its end the array grows to \<open>index + 1\<close> slots and the slots skipped
  read \<^verbatim>\<open>undefined\<close>.
\<close>

definition assign :: "Board \<Rightarrow> nat \<Rightarrow> square \<Rightarrow> Board" where
  "assign b index v =
     (if index < length b then b[index := v]
      else b @ replicate (index - length b) Undefined @ [v])"

text \<open>
  \<^verbatim>\<open>if (gameMode === 'online' && onlineGame?.roomCode) await supabase.from('game_rooms')
  .update(values).eq('code', onlineGame.roomCode)\<close>: the answer is not looked at.
\<close>

definition push :: "(Room \<Rightarrow> Room) \<Rightarrow> World \<Rightarrow> World" where
  "push values w =
     (case onlineGame (app w) of
        None \<Rightarrow> w
      | Some g \<Rightarrow>
          if gameMode (app w) = Some Online \<and> roomCode g \<noteq> []
          then (case update_rooms (session w) values (\<lambda>r. code r = roomCode g) (game_rooms w) of
                  None \<Rightarrow> w
                | Some (rows, returned) \<Rightarrow> w\<lparr>game_rooms := rows\<rparr>)
          else w)"

text \<open>
  The rows such a request of this client rewrites: the client is in online mode with a
  room code, the row carries that code, and the update policy admits the signed-in user.
\<close>

definition reached :: "World \<Rightarrow> Room \<Rightarrow> bool" where
  "reached w r =
     (case onlineGame (app w) of
        None \<Rightarrow> False
      | Some g \<Rightarrow> gameMode (app w) = Some Online \<and> roomCode g \<noteq> [] \<and> code r = roomCode g
                  \<and> players_can_update (session w) r)"

text \<open>
  The three objects passed to \<^verbatim>\<open>.update()\<close> by \<^verbatim>\<open>handleClick\<close> (lines 212-216 and
  226-229) and by \<^verbatim>\<open>resetGame\<close> (lines 244-249), as the change each makes to a row: the
  columns named in the object are overwritten, the others keep their values.
\<close>

definition gameOverValues :: "Board \<Rightarrow> outcome \<Rightarrow> Room \<Rightarrow> Room" where
  "gameOverValues newBoard newWinner r =
     r\<lparr>r_board := toJSON newBoard, r_winner := Some newWinner, status := finished\<rparr>"

definition moveValues :: "Board \<Rightarrow> Player \<Rightarrow> Room \<Rightarrow> Room" where
  "moveValues newBoard nextPlayer r =
     r\<lparr>r_board := toJSON newBoard, current_player := nextPlayer\<rparr>"

definition resetValues :: "Room \<Rightarrow> Room" where
  "resetValues r =
     r\<lparr>r_board := replicate 9 Null, current_player := PX, r_winner := None, status := playing\<rparr>"

text \<open>
  \<open>handleClick index now\<close>: \<open>index\<close> is an array index (a natural number; the board
  rendering passes 0 to 8, and numbers that are no array index are not modelled) and
  \<open>now\<close> is the clock's reading. The sounds have no state.
\<close>

definition handleClick :: "nat \<Rightarrow> nat \<Rightarrow> World \<Rightarrow> World" where
  "handleClick index now w =
     (if ignored index w then w
      else
        let a = app w;
            newBoard = assign (board a) index (Mark (currentPlayer a));
            a1 = a\<lparr>board := newBoard, moveCount := moveCount a + 1\<rparr>
        in case checkWinner newBoard of
             Some newWinner \<Rightarrow>
               push (gameOverValues newBoard newWinner)
                 (w\<lparr>app := a1
                    \<lparr>winner := Some newWinner,
                     players :=
                       (case newWinner of
                          Win p \<Rightarrow> (players a)(p := (players a p)\<lparr>score := score (players a p) + 1\<rparr>)
                        | Draw \<Rightarrow> players a),
                     gameHistory := gameHistory a
                        @ [\<lparr>h_board = newBoard, h_winner = Some newWinner, timestamp = now\<rparr>]\<rparr>\<rparr>)
           | None \<Rightarrow>
               (let nextPlayer = (if currentPlayer a = PX then PO else PX)
                in push (moveValues newBoard nextPlayer)
                     (w\<lparr>app := a1\<lparr>currentPlayer := nextPlayer\<rparr>\<rparr>)))"

definition resetGame :: "World \<Rightarrow> World" where
  "resetGame w =
     push resetValues
       (w\<lparr>app := (app w)\<lparr>board := replicate 9 Null, currentPlayer := PX, winner := None,
                          moveCount := 0\<rparr>\<rparr>)"

definition resetScores :: "World \<Rightarrow> World" where
  "resetScores w =
     w\<lparr>app := (app w)
        \<lparr>players := (\<lambda>p. (players (app w) p)\<lparr>score := 0\<rparr>), gameHistory := []\<rparr>\<rparr>"

text \<open>
  The \<^verbatim>\<open>game_update\<close> broadcast handler (lines 59-77): while the client is in online mode
  with a room code it listens on the room's channel, and a broadcast replaces board,
  current player and winner by the payload's.
\<close>

definition gameUpdate :: "Board \<Rightarrow> Player \<Rightarrow> outcome option \<Rightarrow> World \<Rightarrow> World" where
  "gameUpdate b p win w =
     (if gameMode (app w) = Some Online
         \<and> (case onlineGame (app w) of None \<Rightarrow> False | Some g \<Rightarrow> roomCode g \<noteq> [])
      then w\<lparr>app := (app w)\<lparr>board := b, currentPlayer := p, winner := win\<rparr>\<rparr>
      else w)"

text \<open>What the user and the environment can make one client do, and a run of it.\<close>

datatype Action =
    SetGameMode GameMode
  | SetJoinCode string
  | CreateRoom "string option" string
  | JoinRoom "string option"
  | HandleClick nat nat
  | ResetGame
  | ResetScores
  | GameUpdate Board Player "outcome option"

fun perform :: "World \<Rightarrow> Action \<Rightarrow> World" where
  "perform w (SetGameMode m) = w\<lparr>app := (app w)\<lparr>gameMode := Some m\<rparr>\<rparr>"
| "perform w (SetJoinCode s) = w\<lparr>app := (app w)\<lparr>joinCode := toUpperCase s\<rparr>\<rparr>"
| "perform w (CreateRoom user nano) = createRoom user nano w"
| "perform w (JoinRoom user) = joinRoom user w"
| "perform w (HandleClick index now) = handleClick index now w"
| "perform w ResetGame = resetGame w"
| "perform w ResetScores = resetScores w"
| "perform w (GameUpdate b p win) = gameUpdate b p win w"

definition run :: "World \<Rightarrow> Action list \<Rightarrow> World" where
  "run w actions = foldl perform w actions"

text \<open>
  The marks written by a sequence of clicks (index and clock reading), one for each click
  that is not ignored, in order.
\<close>

fun marksPlaced :: "World \<Rightarrow> (nat \<times> nat) list \<Rightarrow> Player list" where
  "marksPlaced w [] = []"
| "marksPlaced w ((index, now) # rest) =
     (if ignored index w then marksPlaced w rest
      else currentPlayer (app w) # marksPlaced (handleClick index now w) rest)"

text \<open>The invariant of a room row: finished exactly when a winner is recorded.\<close>

definition finishedIffWinner :: "Room \<Rightarrow> bool" where
  "finishedIffWinner r = ((status r = finished) = (r_winner r \<noteq> None))"

section \<open>Concrete worlds\<close>

definition localWorld :: World where
  "localWorld = \<lparr>app = initialApp\<lparr>gameMode := Some Local\<rparr>, session = None, game_rooms = []\<rparr>"

definition onlineWorld :: World where
  "onlineWorld = \<lparr>app = initialApp\<lparr>gameMode := Some Online\<rparr>, session = None, game_rooms = []\<rparr>"

text \<open>A host that has just created the room AB12CD.\<close>

definition hostWorld :: World where
  "hostWorld = createRoom (Some ''host'') ''ab12cd'' onlineWorld"

text \<open>
  The host (X) has played cells 0 and 4, the opponent's moves at cells 1 and 2 have
  arrived as broadcasts, and it is the host's turn.
\<close>

definition hostToWin :: World where
  "hostToWin =
     run hostWorld
       [HandleClick 0 10,
        GameUpdate [Mark PX, Mark PO, Null, Null, Null, Null, Null, Null, Null] PX None,
        HandleClick 4 20,
        GameUpdate [Mark PX, Mark PO, Mark PO, Null, Mark PX, Null, Null, Null, Null] PX None]"

text \<open>Another client, with "AB12CD" entered, facing the table the host left.\<close>

definition guestWorld :: World where
  "guestWorld =
     \<lparr>app = initialApp\<lparr>gameMode := Some Online, joinCode := ''AB12CD''\<rparr>, session = None,
      game_rooms = game_rooms hostWorld\<rparr>"

section \<open>Properties of the rules\<close>

lemma scanCombinations_None:
  "scanCombinations squares cs = None \<longleftrightarrow> (\<forall>l \<in> set cs. \<forall>p. \<not> holds squares p l)"
proof (induction cs)
  case Nil
  show ?case by simp
next
  case (Cons l cs)
  obtain a b c where l: "l = (a, b, c)" by (cases l)
  show ?case
    using Cons.IH by (cases "at squares a") (auto simp: l)
qed

lemma scanCombinations_Some:
  "scanCombinations squares cs = Some p \<Longrightarrow> \<exists>l \<in> set cs. holds squares p l"
proof (induction cs)
  case Nil
  then show ?case by simp
next
  case (Cons l cs)
  obtain a b c where l: "l = (a, b, c)" by (cases l)
  show ?case
    using Cons by (cases "at squares a") (auto simp: l split: if_splits)
qed

lemma scanCombinations_first:
  assumes "k < length cs"
    and "holds squares p (cs ! k)"
    and "\<forall>j < k. \<forall>q. \<not> holds squares q (cs ! j)"
  shows "scanCombinations squares cs = Some p"
  using assms
proof (induction cs arbitrary: k)
  case Nil
  then show ?case by simp
next
  case (Cons l cs)
  obtain a b c where l: "l = (a, b, c)" by (cases l)
  show ?case
  proof (cases k)
    case 0
    with Cons.prems(2) show ?thesis by (simp add: l)
  next
    case (Suc k')
    from Cons.prems(3) Suc have no_l: "\<forall>q. \<not> holds squares q l"
      by (metis nth_Cons_0 zero_less_Suc)
    from Cons.prems(3) Suc have "\<forall>j < k'. \<forall>q. \<not> holds squares q (cs ! j)"
      by (metis Suc_less_eq nth_Cons_Suc)
    with Cons.IH [of k'] Cons.prems(1,2) Suc
    have rest: "scanCombinations squares cs = Some p" by simp
    from no_l show ?thesis
      by (cases "at squares a") (auto simp: l rest)
  qed
qed

lemma scanCombinations_Some_first:
  "scanCombinations squares cs = Some p \<Longrightarrow>
     \<exists>k < length cs. holds squares p (cs ! k) \<and> (\<forall>j < k. \<forall>q. \<not> holds squares q (cs ! j))"
proof (induction cs)
  case Nil
  then show ?case by simp
next
  case (Cons l cs)
  obtain a b c where l: "l = (a, b, c)" by (cases l)
  show ?case
  proof (cases "\<exists>q. holds squares q l")
    case True
    then obtain q where q: "holds squares q l" ..
    with Cons.prems have "q = p" by (simp add: l)
    with q have "holds squares p ((l # cs) ! 0)" by simp
    then show ?thesis by blast
  next
    case False
    with Cons.prems have "scanCombinations squares cs = Some p"
      by (cases "at squares a") (auto simp: l split: if_splits)
    from Cons.IH [OF this] obtain k where k: "k < length cs" "holds squares p (cs ! k)"
      "\<forall>j < k. \<forall>q. \<not> holds squares q (cs ! j)" by blast
    have "\<forall>j < Suc k. \<forall>q. \<not> holds squares q ((l # cs) ! j)"
    proof (intro allI impI)
      fix j q assume "j < Suc k"
      with k(3) False show "\<not> holds squares q ((l # cs) ! j)" by (cases j) auto
    qed
    with k(1,2) show ?thesis by (intro exI [of _ "Suc k"]) simp
  qed
qed

lemma every_not_null:
  assumes "\<forall>s \<in> set squares. s \<noteq> Undefined"
  shows "list_all (\<lambda>square. square \<noteq> Null) squares \<longleftrightarrow> (\<forall>i < length squares. truthy (at squares i))"
proof -
  have "s \<noteq> Undefined \<Longrightarrow> (s \<noteq> Null) = truthy s" for s
    by (cases s) simp_all
  with assms show ?thesis by (auto simp: list_all_iff at_def all_set_conv_all_nth)
qed

lemma winningCombinations_gridLines:
  "set winningCombinations = gridLines"
  by (simp add: winningCombinations_def gridLines_def insert_commute numeral_2_eq_2)

text \<open>
  C1. On a board of nine slots holding marks or \<^verbatim>\<open>null\<close>, \<open>checkWinner\<close> looks at
  exactly the eight lines of the grid (three rows, three columns, two diagonals). It
  returns the mark \<open>p\<close> when some line holds three \<open>p\<close> and the other mark completes no
  line; when no line is completed it returns \<open>Draw\<close> if all nine slots are occupied and
  \<^verbatim>\<open>null\<close> (\<open>None\<close>) if not. Whenever some line is completed the result is a mark that
  completes a line, never \<open>Draw\<close> or \<^verbatim>\<open>null\<close>.
\<close>

theorem checkWinner_outcome:
  assumes "length squares = 9" and "\<forall>s \<in> set squares. s \<noteq> Undefined"
  shows "set winningCombinations = gridLines \<and> length winningCombinations = 8
    \<and> ((\<exists>l \<in> gridLines. holds squares p l) \<and> (\<forall>l \<in> gridLines. \<forall>q. q \<noteq> p \<longrightarrow> \<not> holds squares q l)
          \<longrightarrow> checkWinner squares = Some (Win p))
    \<and> ((\<forall>l \<in> gridLines. \<forall>q. \<not> holds squares q l) \<and> (\<forall>i < 9. truthy (at squares i))
          \<longrightarrow> checkWinner squares = Some Draw)
    \<and> ((\<forall>l \<in> gridLines. \<forall>q. \<not> holds squares q l) \<and> \<not> (\<forall>i < 9. truthy (at squares i))
          \<longrightarrow> checkWinner squares = None)
    \<and> ((\<exists>l \<in> gridLines. \<exists>q. holds squares q l)
          \<longrightarrow> (\<exists>q. checkWinner squares = Some (Win q) \<and> (\<exists>l \<in> gridLines. holds squares q l)))"
proof -
  note g = winningCombinations_gridLines
  have len: "length winningCombinations = 8"
    by (simp add: winningCombinations_def)
  have win: "checkWinner squares = Some (Win p)"
    if some: "\<exists>l \<in> gridLines. holds squares p l"
      and other: "\<forall>l \<in> gridLines. \<forall>q. q \<noteq> p \<longrightarrow> \<not> holds squares q l"
  proof -
    from some have "scanCombinations squares winningCombinations \<noteq> None"
      unfolding scanCombinations_None g by blast
    then obtain q where q: "scanCombinations squares winningCombinations = Some q"
      by blast
    from scanCombinations_Some [OF q] other have "q = p"
      unfolding g by blast
    with q show ?thesis by (simp add: checkWinner_def)
  qed
  have every: "list_all (\<lambda>square. square \<noteq> Null) squares \<longleftrightarrow> (\<forall>i < 9. truthy (at squares i))"
    using every_not_null [OF assms(2)] assms(1) by simp
  have nowin: "checkWinner squares = (if \<forall>i < 9. truthy (at squares i) then Some Draw else None)"
    if none: "\<forall>l \<in> gridLines. \<forall>q. \<not> holds squares q l"
  proof -
    from none have "scanCombinations squares winningCombinations = None"
      unfolding scanCombinations_None g by blast
    then show ?thesis by (simp add: checkWinner_def every)
  qed
  have anywin: "\<exists>q. checkWinner squares = Some (Win q) \<and> (\<exists>l \<in> gridLines. holds squares q l)"
    if some: "\<exists>l \<in> gridLines. \<exists>q. holds squares q l"
  proof -
    from some have "scanCombinations squares winningCombinations \<noteq> None"
      unfolding scanCombinations_None g by blast
    then obtain q where q: "scanCombinations squares winningCombinations = Some q"
      by blast
    from scanCombinations_Some [OF q] have "\<exists>l \<in> gridLines. holds squares q l"
      unfolding g .
    with q show ?thesis by (auto simp: checkWinner_def)
  qed
  from g len win nowin anywin show ?thesis by simp
qed

theorem checkWinner_outcome_witness:
  "checkWinner [Mark PX, Mark PO, Mark PO, Null, Mark PX, Null, Null, Null, Mark PX] = Some (Win PX)
   \<and> checkWinner [Mark PX, Mark PO, Mark PX, Mark PX, Mark PO, Mark PO, Mark PO, Mark PX, Mark PX]
       = Some Draw
   \<and> checkWinner [Mark PX, Mark PO, Null, Null, Null, Null, Null, Null, Null] = None"
proof -
  have a: "checkWinner [Mark PX, Mark PO, Mark PO, Null, Mark PX, Null, Null, Null, Mark PX]
      = Some (Win PX)"
    using checkWinner_outcome
      [of "[Mark PX, Mark PO, Mark PO, Null, Mark PX, Null, Null, Null, Mark PX]" PX]
    by (simp add: gridLines_def at_def)
  have b: "checkWinner [Mark PX, Mark PO, Mark PX, Mark PX, Mark PO, Mark PO, Mark PO, Mark PX, Mark PX]
      = Some Draw"
    using checkWinner_outcome
      [of "[Mark PX, Mark PO, Mark PX, Mark PX, Mark PO, Mark PO, Mark PO, Mark PX, Mark PX]" PX]
    by (simp add: gridLines_def at_def eval_nat_numeral All_less_Suc)
  have c: "checkWinner [Mark PX, Mark PO, Null, Null, Null, Null, Null, Null, Null] = None"
    using checkWinner_outcome
      [of "[Mark PX, Mark PO, Null, Null, Null, Null, Null, Null, Null]" PX]
    by (simp add: gridLines_def at_def eval_nat_numeral All_less_Suc)
  from a b c show ?thesis by simp
qed

text \<open>
  C9. \<open>checkWinner\<close> is a function of the board alone, defined on every board, and the
  combinations are tried in the fixed order rows, columns, diagonals: it returns the
  mark \<open>p\<close> exactly when \<open>p\<close> holds the first completed combination of that order,
  whatever later combinations hold (also a combination of the other mark, as on a
  tampered board).
\<close>

theorem checkWinner_first_completed:
  "winningCombinations =
     [(0, 1, 2), (3, 4, 5), (6, 7, 8), (0, 3, 6), (1, 4, 7), (2, 5, 8), (0, 4, 8), (2, 4, 6)]
   \<and> (checkWinner squares = Some (Win p) \<longleftrightarrow>
        (\<exists>k < 8. holds squares p (winningCombinations ! k)
           \<and> (\<forall>j < k. \<forall>q. \<not> holds squares q (winningCombinations ! j))))"
proof -
  have len: "length winningCombinations = 8"
    by (simp add: winningCombinations_def)
  have "checkWinner squares = Some (Win p) \<longleftrightarrow>
          scanCombinations squares winningCombinations = Some p"
    by (simp add: checkWinner_def split: option.splits)
  also have "\<dots> \<longleftrightarrow> (\<exists>k < 8. holds squares p (winningCombinations ! k)
           \<and> (\<forall>j < k. \<forall>q. \<not> holds squares q (winningCombinations ! j)))"
    using scanCombinations_Some_first [of squares winningCombinations p]
      scanCombinations_first [of _ winningCombinations squares p]
    unfolding len by blast
  finally show ?thesis by (simp add: winningCombinations_def)
qed

theorem checkWinner_first_completed_witness:
  "checkWinner [Mark PX, Null, Mark PO, Mark PX, Null, Mark PO, Mark PX, Null, Mark PO]
     = Some (Win PX)"
proof -
  let ?b = "[Mark PX, Null, Mark PO, Mark PX, Null, Mark PO, Mark PX, Null, Mark PO]"
  have "holds ?b PX (winningCombinations ! 3)
      \<and> (\<forall>j < 3. \<forall>q. \<not> holds ?b q (winningCombinations ! j))"
    by (simp add: winningCombinations_def at_def eval_nat_numeral All_less_Suc)
  then have "\<exists>k < 8. holds ?b PX (winningCombinations ! k)
      \<and> (\<forall>j < k. \<forall>q. \<not> holds ?b q (winningCombinations ! j))"
    by (intro exI [of _ 3]) simp
  with checkWinner_first_completed [of ?b PX] show ?thesis by blast
qed

section \<open>Properties of the store and of a move\<close>


lemma update_rooms_members:
  assumes "\<And>r. host_id (values r) = host_id r" and "\<And>r. guest_id (values r) = guest_id r"
  shows "update_rooms uid values filters rows =
    Some (map (\<lambda>r. if filters r \<and> players_can_update uid r then values r else r) rows,
          map values (filter (\<lambda>r. filters r \<and> players_can_update uid r) rows))"
proof -
  have "players_can_update uid (values r) = players_can_update uid r" for r
    by (simp add: players_can_update_def assms split: option.splits)
  then show ?thesis
    by (simp add: update_rooms_def Let_def list_all_iff)
qed

lemma app_push [simp]: "app (push values w) = app w"
  by (simp add: push_def split: option.splits prod.splits)

lemma session_push [simp]: "session (push values w) = session w"
  by (simp add: push_def split: option.splits prod.splits)

lemma game_rooms_push:
  assumes "\<And>r. host_id (values r) = host_id r" and "\<And>r. guest_id (values r) = guest_id r"
  shows "game_rooms (push values w) = map (\<lambda>r. if reached w r then values r else r) (game_rooms w)"
proof (cases "onlineGame (app w)")
  case None
  then show ?thesis by (simp add: push_def reached_def)
next
  case (Some g)
  show ?thesis
  proof (cases "gameMode (app w) = Some Online \<and> roomCode g \<noteq> []")
    case True
    with Some show ?thesis
      by (simp add: push_def reached_def update_rooms_members [OF assms])
  next
    case False
    with Some have "reached w r = False" for r
      by (auto simp: reached_def)
    with False Some show ?thesis
      by (auto simp: push_def)
  qed
qed

lemma reached_same:
  assumes "onlineGame (app w') = onlineGame (app w)" and "gameMode (app w') = gameMode (app w)"
    and "session w' = session w"
  shows "reached w' = reached w"
  using assms by (simp add: reached_def fun_eq_iff cong: option.case_cong)

lemma handleClick_app:
  assumes "\<not> ignored index w"
  shows "app (handleClick index now w) =
    (let newBoard = assign (board (app w)) index (Mark (currentPlayer (app w)))
     in case checkWinner newBoard of
          None \<Rightarrow> (app w)\<lparr>board := newBoard, moveCount := moveCount (app w) + 1,
                      currentPlayer := (if currentPlayer (app w) = PX then PO else PX)\<rparr>
        | Some newWinner \<Rightarrow>
            (app w)\<lparr>board := newBoard, moveCount := moveCount (app w) + 1,
               winner := Some newWinner,
               players := (case newWinner of
                    Win p \<Rightarrow> (players (app w))(p := (players (app w) p)\<lparr>score := score (players (app w) p) + 1\<rparr>)
                  | Draw \<Rightarrow> players (app w)),
               gameHistory := gameHistory (app w)
                  @ [\<lparr>h_board = newBoard, h_winner = Some newWinner, timestamp = now\<rparr>]\<rparr>)"
  using assms by (simp add: handleClick_def Let_def split: option.splits)

lemma handleClick_game_rooms:
  assumes "\<not> ignored index w"
  shows "game_rooms (handleClick index now w) =
    (let newBoard = assign (board (app w)) index (Mark (currentPlayer (app w)))
     in map (\<lambda>r. if reached w r
            then (case checkWinner newBoard of
                    None \<Rightarrow> moveValues newBoard (if currentPlayer (app w) = PX then PO else PX) r
                  | Some newWinner \<Rightarrow> gameOverValues newBoard newWinner r)
            else r) (game_rooms w))"
proof -
  let ?newBoard = "assign (board (app w)) index (Mark (currentPlayer (app w)))"
  have keep: "host_id (gameOverValues b nw r) = host_id r" "guest_id (gameOverValues b nw r) = guest_id r"
    "host_id (moveValues b p r) = host_id r" "guest_id (moveValues b p r) = guest_id r" for b nw p r
    by (simp_all add: gameOverValues_def moveValues_def)
  have same: "reached (w\<lparr>app := a\<rparr>) = reached w"
    if "onlineGame a = onlineGame (app w)" and "gameMode a = gameMode (app w)" for a
    by (rule reached_same) (simp_all add: that)
  show ?thesis
  proof (cases "checkWinner ?newBoard")
    case None
    with assms show ?thesis
      by (simp add: handleClick_def Let_def game_rooms_push keep same)
  next
    case (Some newWinner)
    with assms show ?thesis
      by (simp add: handleClick_def Let_def game_rooms_push keep same)
  qed
qed

lemma handleClick_session [simp]: "session (handleClick index now w) = session w"
  by (simp add: handleClick_def Let_def split: option.splits)

lemma ignored_winner: "winner (app w) \<noteq> None \<Longrightarrow> ignored index w"
  by (simp add: ignored_def)

lemma marksPlaced_over: "winner (app w) \<noteq> None \<Longrightarrow> marksPlaced w clicks = []"
  by (induction clicks) (auto simp: ignored_winner)

lemma marksPlaced_nth:
  "winner (app w) = None \<Longrightarrow> k < length (marksPlaced w clicks) \<Longrightarrow>
     marksPlaced w clicks ! k =
       (if even k then currentPlayer (app w) else if currentPlayer (app w) = PX then PO else PX)"
proof (induction clicks arbitrary: w k)
  case Nil
  then show ?case by simp
next
  case (Cons click clicks)
  obtain index now where click: "click = (index, now)" by (cases click)
  show ?case
  proof (cases "ignored index w")
    case True
    with Cons show ?thesis by (simp add: click)
  next
    case False
    let ?w' = "handleClick index now w"
    show ?thesis
    proof (cases k)
      case 0
      with False show ?thesis by (simp add: click)
    next
      case (Suc k')
      with Cons.prems(2) False have k': "k' < length (marksPlaced ?w' clicks)"
        by (simp add: click)
      then have "marksPlaced ?w' clicks \<noteq> []" by auto
      then have open': "winner (app ?w') = None"
        using marksPlaced_over by blast
      have cur: "currentPlayer (app ?w') = (if currentPlayer (app w) = PX then PO else PX)"
      proof (cases "checkWinner (assign (board (app w)) index (Mark (currentPlayer (app w))))")
        case None
        with False show ?thesis by (simp add: handleClick_app Let_def)
      next
        case (Some newWinner)
        with False have "winner (app ?w') = Some newWinner"
          by (simp add: handleClick_app Let_def)
        with open' show ?thesis by simp
      qed
      from Cons.IH [OF open' k'] Suc False show ?thesis
        by (cases "currentPlayer (app w)") (simp_all add: click cur)
    qed
  qed
qed


section \<open>Properties of the strings\<close>

lemma upperChar_upper: "isUpper d \<Longrightarrow> upperChar d = d"
  by (simp add: isUpper_def upperChar_def)

lemma upperChar_lower:
  assumes "isLower c" and "(of_char c :: nat) = of_char d + 32"
  shows "upperChar c = d"
proof -
  from assms have "upperChar c = char_of (of_char d :: nat)"
    by (simp add: isLower_def upperChar_def)
  then show ?thesis by simp
qed

lemma isUpper_upperChar:
  assumes "isLower c"
  shows "isUpper (upperChar c)"
proof -
  define n where "n = (of_char c :: nat)"
  from assms have n: "97 \<le> n" "n \<le> 122"
    by (simp_all add: isLower_def n_def)
  then have "upperChar c = char_of (n - 32)"
    by (simp add: upperChar_def n_def)
  then have "(of_char (upperChar c) :: nat) = (n - 32) mod 256"
    by simp
  also from n have "\<dots> = n - 32"
    by (intro mod_less) arith
  finally have e: "(of_char (upperChar c) :: nat) = n - 32" .
  show ?thesis
    unfolding isUpper_def e using n by arith
qed

lemma upperChar_not_lower: "\<not> isLower c \<Longrightarrow> upperChar c = c"
  unfolding isLower_def upperChar_def by (rule if_not_P)

lemma upperChar_idem: "upperChar (upperChar c) = upperChar c"
proof (cases "isLower c")
  case True
  then show ?thesis by (simp add: isUpper_upperChar upperChar_upper)
next
  case False
  then show ?thesis by (simp add: upperChar_not_lower)
qed

lemma toUpperCase_idem: "toUpperCase (toUpperCase s) = toUpperCase s"
  by (simp add: toUpperCase_def upperChar_idem)

lemma length_toUpperCase [simp]: "length (toUpperCase s) = length s"
  by (simp add: toUpperCase_def)

lemma sameButCase_toUpperCase:
  assumes "sameButCase s t"
  shows "toUpperCase s = toUpperCase t"
proof -
  have "upperChar c = upperChar d"
    if "c = d \<or> (isLower c \<and> isUpper d \<and> (of_char c :: nat) = of_char d + 32)
        \<or> (isUpper c \<and> isLower d \<and> (of_char d :: nat) = of_char c + 32)" for c d
    using that by (auto simp: upperChar_upper upperChar_lower)
  with assms have "list_all2 (\<lambda>c d. upperChar c = upperChar d) s t"
    unfolding sameButCase_def by (rule list_all2_mono) 
  then show ?thesis
    unfolding toUpperCase_def by (induction rule: list_all2_induct) simp_all
qed

lemma sameButCase_length: "sameButCase s t \<Longrightarrow> length s = length t"
  by (simp add: sameButCase_def list_all2_lengthD)

lemma nanoidChar_upperChar:
  assumes "nanoidChar c"
  shows "(upperAlnum (upperChar c) \<or> upperChar c = CHR ''_'' \<or> upperChar c = CHR ''-'')
     \<and> \<not> isLower (upperChar c)"
proof (cases "isLower c")
  case True
  then have "isUpper (upperChar c)" by (rule isUpper_upperChar)
  then show ?thesis by (simp add: upperAlnum_def isUpper_def isLower_def)
next
  case False
  then have "upperChar c = c" by (rule upperChar_not_lower)
  with assms False show ?thesis by (auto simp: nanoidChar_def upperAlnum_def)
qed

section \<open>Properties of room creation\<close>

lemma createRoom_game_rooms:
  "game_rooms (createRoom user nano w) = game_rooms w
   \<or> (\<exists>uid. user = Some uid
        \<and> game_rooms (createRoom user nano w) = game_rooms w @
            [\<lparr>code = toUpperCase nano, host_id = uid, guest_id = None,
              r_board = toJSON (board (app w)), current_player = currentPlayer (app w),
              r_winner = None, status = waiting\<rparr>]
        \<and> onlineGame (app (createRoom user nano w)) =
            Some \<lparr>roomCode = toUpperCase nano, isHost = True, connected = True,
                   playerId = Some uid, errorMessage = None\<rparr>)"
  by (cases user) (simp_all add: createRoom_def setError_def insert_room_def Let_def)

text \<open>
  C8, as amended. The code of a room that \<open>createRoom\<close> adds is the upper-case form of the
  six characters \<^verbatim>\<open>nanoid(6)\<close> returned: it has exactly 6 characters, none of them a
  lower-case letter, and each is an upper-case letter, a digit, an underscore or a
  hyphen (the last two are in the library's alphabet and have no upper-case form).
\<close>

theorem createRoom_code_shape:
  assumes "nanoid_result 6 nano"
  shows "game_rooms (createRoom user nano w) = game_rooms w
     \<or> (\<exists>room. game_rooms (createRoom user nano w) = game_rooms w @ [room]
          \<and> map_option roomCode (onlineGame (app (createRoom user nano w))) = Some (code room)
          \<and> code room = toUpperCase nano
          \<and> length (code room) = 6
          \<and> list_all (\<lambda>c. upperAlnum c \<or> c = CHR ''_'' \<or> c = CHR ''-'') (code room)
          \<and> list_all (\<lambda>c. \<not> isLower c) (code room))"
proof -
  from assms have len: "length (toUpperCase nano) = 6"
    by (simp add: nanoid_result_def)
  from assms have chars: "list_all (\<lambda>c. upperAlnum c \<or> c = CHR ''_'' \<or> c = CHR ''-'') (toUpperCase nano)"
    "list_all (\<lambda>c. \<not> isLower c) (toUpperCase nano)"
    by (simp_all add: nanoid_result_def toUpperCase_def list_all_iff nanoidChar_upperChar)
  from createRoom_game_rooms [of user nano w] len chars show ?thesis
    by auto
qed

theorem createRoom_code_shape_witness:
  "nanoid_result 6 ''ab12cd''
   \<and> (\<exists>room. game_rooms hostWorld = [room] \<and> code room = ''AB12CD'' \<and> length (code room) = 6
         \<and> list_all (\<lambda>c. upperAlnum c \<or> c = CHR ''_'' \<or> c = CHR ''-'') (code room))"
proof -
  have h: "nanoid_result 6 ''ab12cd''" by code_simp
  have grown: "game_rooms (createRoom (Some ''host'') ''ab12cd'' onlineWorld) \<noteq> game_rooms onlineWorld"
    by code_simp
  have empty: "game_rooms onlineWorld = []" by code_simp
  have up: "toUpperCase ''ab12cd'' = ''AB12CD''" by code_simp
  from createRoom_code_shape [OF h, of "Some ''host''" onlineWorld] grown empty up h
  show ?thesis unfolding hostWorld_def by auto
qed

text \<open>
  C8 as stated fails: \<^verbatim>\<open>nanoid(6)\<close> may return \<^verbatim>\<open>ab_1-c\<close>, and the room is then stored
  under the code \<^verbatim>\<open>AB_1-C\<close>, which is not alphanumeric.
\<close>

theorem createRoom_code_counterexample:
  "nanoid_result 6 ''ab_1-c''
   \<and> map code (game_rooms (createRoom (Some ''host'') ''ab_1-c'' onlineWorld)) = [''AB_1-C'']
   \<and> \<not> list_all upperAlnum ''AB_1-C''"
  by code_simp

section \<open>Properties of joining\<close>

text \<open>
  Under the update policy a join by a user who is host or guest of no row rewrites
  nothing, whatever the table holds.
\<close>

lemma joinRoom_outsider:
  assumes "\<forall>r \<in> set (game_rooms w). host_id r \<noteq> uid \<and> guest_id r \<noteq> Some uid"
  shows "game_rooms (joinRoom (Some uid) w) = game_rooms w"
proof -
  from assms have no: "\<not> players_can_update (Some uid) r" if "r \<in> set (game_rooms w)" for r
    using that by (auto simp: players_can_update_def)
  have none: "filter (\<lambda>r. joinFilters (joinCode (app w)) r \<and> players_can_update (Some uid) r)
      (game_rooms w) = []"
    using no by (auto simp: filter_empty_conv)
  have same: "map (\<lambda>r. if joinFilters (joinCode (app w)) r \<and> players_can_update (Some uid) r
                   then r\<lparr>guest_id := Some uid, status := playing\<rparr> else r) (game_rooms w)
      = game_rooms w"
    using no by (intro map_idI) simp
  show ?thesis
    by (simp add: joinRoom_def update_rooms_def Let_def none same setError_def)
qed

text \<open>
  C3 at a concrete table. The host's room AB12CD is waiting with no guest, and another
  user enters AB12CD, so the join query's three filters pass on that row. The update
  policy admits only the row's host or guest; the joining user is neither yet, the row
  is left as it was, and the client gets "Failed to join room".
\<close>

theorem joinRoom_guest_refused:
  "map (joinFilters (joinCode (app guestWorld))) (game_rooms guestWorld) = [True]
   \<and> game_rooms (joinRoom (Some ''guest'') guestWorld) = game_rooms guestWorld
   \<and> map_option errorMessage (onlineGame (app (joinRoom (Some ''guest'') guestWorld)))
       = Some (Some ''Failed to join room'')
   \<and> map_option connected (onlineGame (app (joinRoom (Some ''guest'') guestWorld))) = Some False"
  by code_simp

text \<open>
  C7. For a room made by \<open>createRoom\<close>, an entered code that differs from the stored one
  only in letter case selects the same rows: the join query's filters pass exactly on
  the rows with the stored code that are waiting without a guest, and \<open>joinRoom\<close> leaves
  the same table and the same session state as with the stored code typed exactly.
\<close>

theorem join_code_case_insensitive:
  assumes "game_rooms (createRoom (Some uid) nano w0) = game_rooms w0 @ [room]"
    and "sameButCase entered (code room)"
  shows "(joinFilters entered r \<longleftrightarrow> code r = code room \<and> status r = waiting \<and> guest_id r = None)
    \<and> game_rooms (joinRoom user (w\<lparr>app := (app w)\<lparr>joinCode := entered\<rparr>\<rparr>))
        = game_rooms (joinRoom user (w\<lparr>app := (app w)\<lparr>joinCode := code room\<rparr>\<rparr>))
    \<and> onlineGame (app (joinRoom user (w\<lparr>app := (app w)\<lparr>joinCode := entered\<rparr>\<rparr>)))
        = onlineGame (app (joinRoom user (w\<lparr>app := (app w)\<lparr>joinCode := code room\<rparr>\<rparr>)))"
proof -
  from assms(1) createRoom_game_rooms [of "Some uid" nano w0]
  have stored: "code room = toUpperCase nano" by auto
  then have stable: "toUpperCase (code room) = code room"
    by (simp add: toUpperCase_idem)
  from assms(2) have up: "toUpperCase entered = code room"
    using sameButCase_toUpperCase stable by simp
  from assms(2) have nil: "entered = [] \<longleftrightarrow> code room = []"
    using sameButCase_length by fastforce
  have filters: "joinFilters entered = joinFilters (code room)"
    by (simp add: joinFilters_def fun_eq_iff up stable)
  have one: "joinFilters entered r \<longleftrightarrow> code r = code room \<and> status r = waiting \<and> guest_id r = None"
    by (simp add: joinFilters_def up)
  have two: "game_rooms (joinRoom user (w\<lparr>app := (app w)\<lparr>joinCode := entered\<rparr>\<rparr>))
        = game_rooms (joinRoom user (w\<lparr>app := (app w)\<lparr>joinCode := code room\<rparr>\<rparr>))"
    by (simp add: joinRoom_def setError_def Let_def nil filters up stable split: option.splits prod.splits)
  have three: "onlineGame (app (joinRoom user (w\<lparr>app := (app w)\<lparr>joinCode := entered\<rparr>\<rparr>)))
        = onlineGame (app (joinRoom user (w\<lparr>app := (app w)\<lparr>joinCode := code room\<rparr>\<rparr>)))"
    by (simp add: joinRoom_def setError_def Let_def nil filters up stable split: option.splits prod.splits)
  from one two three show ?thesis by simp
qed

theorem join_code_case_insensitive_witness:
  "sameButCase ''ab12cd'' ''AB12CD''
   \<and> map (joinFilters ''ab12cd'') (game_rooms hostWorld) = [True]
   \<and> map status (game_rooms (joinRoom (Some ''host'')
         (guestWorld\<lparr>app := (app guestWorld)\<lparr>joinCode := ''ab12cd''\<rparr>\<rparr>))) = [playing]"
proof -
  define room where "room = hd (game_rooms hostWorld)"
  have rooms: "game_rooms hostWorld = [room]"
    unfolding room_def by code_simp
  have room: "code room = ''AB12CD''" "status room = waiting" "guest_id room = None"
    unfolding room_def by code_simp+
  have made: "game_rooms (createRoom (Some ''host'') ''ab12cd'' onlineWorld)
      = game_rooms onlineWorld @ [room]"
    using rooms by (simp add: hostWorld_def onlineWorld_def)
  have same: "sameButCase ''ab12cd'' (code room)"
    unfolding room(1) by code_simp
  note inst = join_code_case_insensitive [OF made same, of room "Some ''host''" guestWorld]
  from inst room have "joinFilters ''ab12cd'' room" by simp
  moreover have "map status (game_rooms (joinRoom (Some ''host'')
         (guestWorld\<lparr>app := (app guestWorld)\<lparr>joinCode := ''AB12CD''\<rparr>\<rparr>))) = [playing]"
    by code_simp
  ultimately show ?thesis
    using inst rooms room same by simp
qed

section \<open>Properties of a click\<close>

text \<open>
  C2, as amended. A click on an occupied cell, a click when the game has a winner or is
  drawn, and in online mode a click while not connected or while it is the other mark's
  turn, change nothing: the whole world (board, current player, winner, move count, and
  the room table) is what it was. (A cell index past the board is not among them.)
\<close>

theorem handleClick_ignored:
  assumes "truthy (at (board (app w)) index) \<or> winner (app w) \<noteq> None
     \<or> (gameMode (app w) = Some Online
          \<and> (\<not> isConnected (onlineGame (app w))
               \<or> currentPlayer (app w) \<noteq> ownMark (onlineGame (app w))))"
  shows "handleClick index now w = w"
  using assms by (auto simp: handleClick_def ignored_def)

theorem handleClick_ignored_witness:
  "moveCount (app (handleClick 0 11 (handleClick 0 10 localWorld))) = 1
   \<and> board (app (handleClick 8 31 (handleClick 8 30 hostToWin))) = board (app (handleClick 8 30 hostToWin))
   \<and> currentPlayer (app (handleClick 1 11 (handleClick 0 10 hostWorld))) = PO
   \<and> game_rooms (handleClick 1 11 (handleClick 0 10 hostWorld)) = game_rooms (handleClick 0 10 hostWorld)"
proof -
  have occupied: "truthy (at (board (app (handleClick 0 10 localWorld))) 0)
     \<or> winner (app (handleClick 0 10 localWorld)) \<noteq> None
     \<or> (gameMode (app (handleClick 0 10 localWorld)) = Some Online
          \<and> (\<not> isConnected (onlineGame (app (handleClick 0 10 localWorld)))
               \<or> currentPlayer (app (handleClick 0 10 localWorld))
                   \<noteq> ownMark (onlineGame (app (handleClick 0 10 localWorld)))))"
    by code_simp
  have over: "truthy (at (board (app (handleClick 8 30 hostToWin))) 8)
     \<or> winner (app (handleClick 8 30 hostToWin)) \<noteq> None
     \<or> (gameMode (app (handleClick 8 30 hostToWin)) = Some Online
          \<and> (\<not> isConnected (onlineGame (app (handleClick 8 30 hostToWin)))
               \<or> currentPlayer (app (handleClick 8 30 hostToWin))
                   \<noteq> ownMark (onlineGame (app (handleClick 8 30 hostToWin)))))"
    by code_simp
  have turn: "truthy (at (board (app (handleClick 0 10 hostWorld))) 1)
     \<or> winner (app (handleClick 0 10 hostWorld)) \<noteq> None
     \<or> (gameMode (app (handleClick 0 10 hostWorld)) = Some Online
          \<and> (\<not> isConnected (onlineGame (app (handleClick 0 10 hostWorld)))
               \<or> currentPlayer (app (handleClick 0 10 hostWorld))
                   \<noteq> ownMark (onlineGame (app (handleClick 0 10 hostWorld)))))"
    by code_simp
  have a: "moveCount (app (handleClick 0 10 localWorld)) = 1" by code_simp
  have b: "currentPlayer (app (handleClick 0 10 hostWorld)) = PO" by code_simp
  from handleClick_ignored [OF occupied, of 11] handleClick_ignored [OF over, of 31]
    handleClick_ignored [OF turn, of 11] a b
  show ?thesis by simp
qed

text \<open>
  C2 as stated fails for an index out of range: there is no range check, so on the empty
  local board a click at index 9 reads \<^verbatim>\<open>undefined\<close> at slot 9, is let through, grows
  the board to ten slots, passes the turn to O and counts as a move.
\<close>

theorem handleClick_out_of_range_counterexample:
  "\<not> (9::nat) \<le> 8
   \<and> board (app localWorld) = replicate 9 Null
   \<and> board (app (handleClick 9 10 localWorld)) = replicate 9 Null @ [Mark PX]
   \<and> currentPlayer (app localWorld) = PX
   \<and> currentPlayer (app (handleClick 9 10 localWorld)) = PO
   \<and> moveCount (app localWorld) = 0
   \<and> moveCount (app (handleClick 9 10 localWorld)) = 1"
  by code_simp

text \<open>
  C5. From a state where X is to move and no outcome is set (whatever the board holds, in
  particular the empty one), the marks written by the clicks that go through are
  X, O, X, O, ... in order. And from any state, a click that goes through and yields no
  outcome passes the turn to the other mark, while one that yields an outcome leaves the
  turn where it was and records the outcome.
\<close>

theorem turns_alternate:
  assumes "currentPlayer (app w) = PX" and "winner (app w) = None"
  shows "(\<forall>k < length (marksPlaced w clicks).
            marksPlaced w clicks ! k = (if even k then PX else PO))
    \<and> (\<not> ignored index v \<longrightarrow>
         (case checkWinner (assign (board (app v)) index (Mark (currentPlayer (app v)))) of
            None \<Rightarrow>
              currentPlayer (app (handleClick index now v))
                = (if currentPlayer (app v) = PX then PO else PX)
              \<and> winner (app (handleClick index now v)) = None
          | Some newWinner \<Rightarrow>
              currentPlayer (app (handleClick index now v)) = currentPlayer (app v)
              \<and> winner (app (handleClick index now v)) = Some newWinner))"
proof -
  have seq: "\<forall>k < length (marksPlaced w clicks).
            marksPlaced w clicks ! k = (if even k then PX else PO)"
    using marksPlaced_nth [OF assms(2), of _ clicks] assms(1) by simp
  have step: "case checkWinner (assign (board (app v)) index (Mark (currentPlayer (app v)))) of
            None \<Rightarrow>
              currentPlayer (app (handleClick index now v))
                = (if currentPlayer (app v) = PX then PO else PX)
              \<and> winner (app (handleClick index now v)) = None
          | Some newWinner \<Rightarrow>
              currentPlayer (app (handleClick index now v)) = currentPlayer (app v)
              \<and> winner (app (handleClick index now v)) = Some newWinner"
    if live: "\<not> ignored index v"
  proof -
    from live have "winner (app v) = None"
      using ignored_winner by blast
    with live show ?thesis
      by (simp add: handleClick_app Let_def split: option.splits)
  qed
  from seq step show ?thesis by blast
qed

theorem turns_alternate_witness:
  "marksPlaced localWorld [(0, 10), (1, 11), (1, 12), (4, 13), (2, 14), (8, 15), (5, 16)]
     = [PX, PO, PX, PO, PX]"
proof -
  define clicks :: "(nat \<times> nat) list" where
    "clicks = [(0, 10), (1, 11), (1, 12), (4, 13), (2, 14), (8, 15), (5, 16)]"
  define ms where "ms = marksPlaced localWorld clicks"
  have start: "currentPlayer (app localWorld) = PX" "winner (app localWorld) = None"
    by code_simp+
  have len: "length ms = 5"
    unfolding ms_def clicks_def by code_simp
  have five: "(\<forall>k < 5. P k) = (P 0 \<and> P 1 \<and> P 2 \<and> P 3 \<and> P (4::nat))" for P
    by (simp add: eval_nat_numeral All_less_Suc conj_ac)
  from turns_alternate [OF start, of clicks 0 localWorld 0, THEN conjunct1]
  have "\<forall>k < 5. ms ! k = (if even k then PX else PO)"
    unfolding ms_def [symmetric] len .
  then have "\<forall>k < 5. ms ! k = [PX, PO, PX, PO, PX] ! k"
    unfolding five by simp
  with len have "ms = [PX, PO, PX, PO, PX]"
    by (simp add: list_eq_iff_nth_eq)
  then show ?thesis by (simp add: ms_def clicks_def)
qed

section \<open>Properties of what a move pushes\<close>

text \<open>
  C4, as amended. A click that goes through pushes the columns it changes, to the rows
  this client's requests reach (online mode, the client's room code, and the signed-in
  user is the row's host or guest): when the move ends the game, the row's board and
  winner become the local post-move board and winner and its status becomes finished,
  and its \<^verbatim>\<open>current_player\<close> is left as it was; when the move does not end the game, the
  row's board and \<^verbatim>\<open>current_player\<close> become the local post-move board and turn, and its
  winner and status are left as they were. Every other row is untouched.
\<close>

theorem handleClick_pushes_changed_columns:
  assumes "\<not> ignored index w"
  shows "game_rooms (handleClick index now w) =
     map (\<lambda>r. if reached w r
              then (case winner (app (handleClick index now w)) of
                      None \<Rightarrow>
                        r\<lparr>r_board := toJSON (board (app (handleClick index now w))),
                          current_player := currentPlayer (app (handleClick index now w))\<rparr>
                    | Some newWinner \<Rightarrow>
                        r\<lparr>r_board := toJSON (board (app (handleClick index now w))),
                          r_winner := Some newWinner, status := finished\<rparr>)
              else r) (game_rooms w)"
proof -
  let ?w' = "handleClick index now w"
  let ?newBoard = "assign (board (app w)) index (Mark (currentPlayer (app w)))"
  let ?nextPlayer = "if currentPlayer (app w) = PX then PO else PX"
  from assms have live: "winner (app w) = None"
    using ignored_winner by blast
  show ?thesis
  proof (cases "checkWinner ?newBoard")
    case None
    with assms live have a: "winner (app ?w') = None" "board (app ?w') = ?newBoard"
      "currentPlayer (app ?w') = ?nextPlayer"
      by (simp_all add: handleClick_app Let_def)
    from assms None have "game_rooms ?w' =
        map (\<lambda>r. if reached w r then moveValues ?newBoard ?nextPlayer r else r) (game_rooms w)"
      by (simp add: handleClick_game_rooms Let_def)
    then show ?thesis
      unfolding a by (simp add: moveValues_def)
  next
    case (Some newWinner)
    with assms have a: "winner (app ?w') = Some newWinner" "board (app ?w') = ?newBoard"
      by (simp_all add: handleClick_app Let_def)
    from assms Some have "game_rooms ?w' =
        map (\<lambda>r. if reached w r then gameOverValues ?newBoard newWinner r else r) (game_rooms w)"
      by (simp add: handleClick_game_rooms Let_def)
    then show ?thesis
      unfolding a by (simp add: gameOverValues_def)
  qed
qed

theorem handleClick_pushes_changed_columns_witness:
  "game_rooms (handleClick 0 10 hostWorld) =
     [\<lparr>code = ''AB12CD'', host_id = ''host'', guest_id = None,
       r_board = [Mark PX, Null, Null, Null, Null, Null, Null, Null, Null],
       current_player = PO, r_winner = None, status = waiting\<rparr>]
   \<and> game_rooms (handleClick 8 30 hostToWin) =
     [\<lparr>code = ''AB12CD'', host_id = ''host'', guest_id = None,
       r_board = [Mark PX, Mark PO, Mark PO, Null, Mark PX, Null, Null, Null, Mark PX],
       current_player = PO, r_winner = Some (Win PX), status = finished\<rparr>]"
proof -
  have first: "\<not> ignored 0 hostWorld" and last: "\<not> ignored 8 hostToWin"
    by code_simp+
  have a: "game_rooms (handleClick 0 10 hostWorld) =
     [\<lparr>code = ''AB12CD'', host_id = ''host'', guest_id = None,
       r_board = [Mark PX, Null, Null, Null, Null, Null, Null, Null, Null],
       current_player = PO, r_winner = None, status = waiting\<rparr>]"
    unfolding handleClick_pushes_changed_columns [OF first] by code_simp
  have b: "game_rooms (handleClick 8 30 hostToWin) =
     [\<lparr>code = ''AB12CD'', host_id = ''host'', guest_id = None,
       r_board = [Mark PX, Mark PO, Mark PO, Null, Mark PX, Null, Null, Null, Mark PX],
       current_player = PO, r_winner = Some (Win PX), status = finished\<rparr>]"
    unfolding handleClick_pushes_changed_columns [OF last] by code_simp
  from a b show ?thesis by simp
qed

text \<open>
  C4 as stated fails, since a move never pushes all four columns. The host's first move
  in the room it has just created goes through and the game is in progress, yet the
  row's status is still \<^verbatim>\<open>waiting\<close>: a move that does not end the game writes no status.
  And when the host completes the diagonal 0-4-8 after the opponent's moves arrived as
  broadcasts, the local turn is X (it is not passed on), while the row's
  \<^verbatim>\<open>current_player\<close> is still the O of the host's previous push: a move that ends the
  game writes no turn.
\<close>

theorem handleClick_push_counterexample:
  "gameMode (app hostWorld) = Some Online
   \<and> map code (game_rooms hostWorld) = [''AB12CD'']
   \<and> map_option roomCode (onlineGame (app hostWorld)) = Some ''AB12CD''
   \<and> \<not> ignored 0 hostWorld
   \<and> winner (app (handleClick 0 10 hostWorld)) = None
   \<and> map status (game_rooms (handleClick 0 10 hostWorld)) = [waiting]
   \<and> \<not> ignored 8 hostToWin
   \<and> winner (app (handleClick 8 30 hostToWin)) = Some (Win PX)
   \<and> currentPlayer (app (handleClick 8 30 hostToWin)) = PX
   \<and> map current_player (game_rooms (handleClick 8 30 hostToWin)) = [PO]"
  by code_simp

section \<open>Properties of the table\<close>

lemma list_all_rewrite:
  assumes "list_all P rows" and "\<And>r. P r \<Longrightarrow> hit r \<Longrightarrow> P (f r)"
  shows "list_all P (map (\<lambda>r. if hit r then f r else r) rows)"
  using assms by (induction rows) simp_all

lemma joinRoom_game_rooms:
  "game_rooms (joinRoom user w) = game_rooms w
   \<or> (\<exists>uid. game_rooms (joinRoom user w) =
         map (\<lambda>r. if joinFilters (joinCode (app w)) r \<and> players_can_update (Some uid) r
                   then r\<lparr>guest_id := Some uid, status := playing\<rparr> else r) (game_rooms w))"
proof (cases user)
  case None
  then show ?thesis by (simp add: joinRoom_def setError_def)
next
  case (Some uid)
  show ?thesis
  proof (cases "update_rooms (Some uid) (\<lambda>r. r\<lparr>guest_id := Some uid, status := playing\<rparr>)
                     (joinFilters (joinCode (app w))) (game_rooms w)")
    case None
    with Some show ?thesis by (simp add: joinRoom_def setError_def Let_def)
  next
    case (Some result)
    then have "fst result =
         map (\<lambda>r. if joinFilters (joinCode (app w)) r \<and> players_can_update (Some uid) r
                   then r\<lparr>guest_id := Some uid, status := playing\<rparr> else r) (game_rooms w)"
      by (auto simp: update_rooms_def Let_def split: if_splits)
    with Some \<open>user = Some uid\<close> show ?thesis
      by (cases result) (auto simp: joinRoom_def setError_def Let_def)
  qed
qed

lemma resetGame_game_rooms:
  "game_rooms (resetGame w) = map (\<lambda>r. if reached w r then resetValues r else r) (game_rooms w)"
proof -
  have "reached (w\<lparr>app := (app w)\<lparr>board := b, currentPlayer := p, winner := x, moveCount := n\<rparr>\<rparr>)
      = reached w" for b p x n
    by (rule reached_same) simp_all
  then show ?thesis
    by (simp add: resetGame_def game_rooms_push resetValues_def)
qed

lemma perform_keeps:
  assumes "list_all finishedIffWinner (game_rooms w)"
  shows "list_all finishedIffWinner (game_rooms (perform w action))"
proof (cases action)
  case (SetGameMode m)
  with assms show ?thesis by simp
next
  case (SetJoinCode s)
  with assms show ?thesis by simp
next
  case (CreateRoom user nano)
  with assms createRoom_game_rooms [of user nano w] show ?thesis
    by (auto simp: finishedIffWinner_def)
next
  case (JoinRoom user)
  have "finishedIffWinner (r\<lparr>guest_id := Some uid, status := playing\<rparr>)"
    if "finishedIffWinner r"
      and "joinFilters (joinCode (app w)) r \<and> players_can_update (Some uid) r" for r uid
    using that by (simp add: finishedIffWinner_def joinFilters_def)
  with assms have "list_all finishedIffWinner
         (map (\<lambda>r. if joinFilters (joinCode (app w)) r \<and> players_can_update (Some uid) r
                   then r\<lparr>guest_id := Some uid, status := playing\<rparr> else r) (game_rooms w))" for uid
    by (intro list_all_rewrite) 
  with assms JoinRoom joinRoom_game_rooms [of user w] show ?thesis
    by auto
next
  case (HandleClick index now)
  show ?thesis
  proof (cases "ignored index w")
    case True
    with assms HandleClick show ?thesis by (simp add: handleClick_def)
  next
    case False
    have "finishedIffWinner
       (case checkWinner b of None \<Rightarrow> moveValues b p r | Some newWinner \<Rightarrow> gameOverValues b newWinner r)"
      if "finishedIffWinner r" for r b p
      using that
      by (simp add: finishedIffWinner_def moveValues_def gameOverValues_def split: option.splits)
    with assms have "list_all finishedIffWinner
       (map (\<lambda>r. if reached w r
            then (case checkWinner b of None \<Rightarrow> moveValues b p r
                  | Some newWinner \<Rightarrow> gameOverValues b newWinner r)
            else r) (game_rooms w))" for b p
      by (intro list_all_rewrite)
    with False HandleClick show ?thesis
      by (simp add: handleClick_game_rooms Let_def)
  qed
next
  case ResetGame
  have "finishedIffWinner (resetValues r)" for r
    by (simp add: finishedIffWinner_def resetValues_def)
  with assms have "list_all finishedIffWinner
      (map (\<lambda>r. if reached w r then resetValues r else r) (game_rooms w))"
    by (intro list_all_rewrite)
  with ResetGame show ?thesis by (simp add: resetGame_game_rooms)
next
  case ResetScores
  with assms show ?thesis by (simp add: resetScores_def)
next
  case (GameUpdate b p win)
  with assms show ?thesis by (simp add: gameUpdate_def)
qed

lemma run_keeps:
  "list_all finishedIffWinner (game_rooms w) \<Longrightarrow>
     list_all finishedIffWinner (game_rooms (run w actions))"
  unfolding run_def
  by (induction actions arbitrary: w) (simp_all add: perform_keeps)

text \<open>
  C6. If every row of the table has status \<^verbatim>\<open>finished\<close> exactly when its winner is not
  null (as in the empty table), then so has every row after any sequence of this
  client's operations: creating and joining rooms, clicks, resets, broadcasts received,
  settings. In particular the object pushed by a move that yields a winner or a draw
  carries status \<^verbatim>\<open>finished\<close> with that winner, the one pushed by any other move carries
  neither column, and the one pushed by a reset carries a null winner with status
  \<^verbatim>\<open>playing\<close>.
\<close>

theorem status_finished_iff_winner:
  assumes "\<forall>r \<in> set (game_rooms w). (status r = finished) = (r_winner r \<noteq> None)"
  shows "(\<forall>r \<in> set (game_rooms (run w actions)). (status r = finished) = (r_winner r \<noteq> None))
    \<and> status (gameOverValues newBoard newWinner r0) = finished
    \<and> r_winner (gameOverValues newBoard newWinner r0) = Some newWinner
    \<and> status (moveValues newBoard nextPlayer r0) = status r0
    \<and> r_winner (moveValues newBoard nextPlayer r0) = r_winner r0
    \<and> status (resetValues r0) = playing
    \<and> r_winner (resetValues r0) = None"
proof -
  from assms have "list_all finishedIffWinner (game_rooms w)"
    by (simp add: list_all_iff finishedIffWinner_def)
  then have "list_all finishedIffWinner (game_rooms (run w actions))"
    by (rule run_keeps)
  then show ?thesis
    by (simp add: list_all_iff finishedIffWinner_def gameOverValues_def moveValues_def
        resetValues_def)
qed

theorem status_finished_iff_winner_witness:
  "game_rooms onlineWorld = []
   \<and> map status (game_rooms (run onlineWorld
        [CreateRoom (Some ''host'') ''ab12cd'', HandleClick 0 10,
         GameUpdate [Mark PX, Mark PO, Null, Null, Null, Null, Null, Null, Null] PX None,
         HandleClick 4 20,
         GameUpdate [Mark PX, Mark PO, Mark PO, Null, Mark PX, Null, Null, Null, Null] PX None,
         HandleClick 8 30])) = [finished]
   \<and> list_all (\<lambda>r. r_winner r \<noteq> None) (game_rooms (run onlineWorld
        [CreateRoom (Some ''host'') ''ab12cd'', HandleClick 0 10,
         GameUpdate [Mark PX, Mark PO, Null, Null, Null, Null, Null, Null, Null] PX None,
         HandleClick 4 20,
         GameUpdate [Mark PX, Mark PO, Mark PO, Null, Mark PX, Null, Null, Null, Null] PX None,
         HandleClick 8 30]))"
proof -
  define actions where "actions =
        [CreateRoom (Some ''host'') ''ab12cd'', HandleClick 0 10,
         GameUpdate [Mark PX, Mark PO, Null, Null, Null, Null, Null, Null, Null] PX None,
         HandleClick 4 20,
         GameUpdate [Mark PX, Mark PO, Mark PO, Null, Mark PX, Null, Null, Null, Null] PX None,
         HandleClick 8 30]"
  have empty: "game_rooms onlineWorld = []" by code_simp
  then have start: "\<forall>r \<in> set (game_rooms onlineWorld). (status r = finished) = (r_winner r \<noteq> None)"
    by simp
  have fin: "map status (game_rooms (run onlineWorld actions)) = [finished]"
    unfolding actions_def by code_simp
  from status_finished_iff_winner [OF start, of actions, THEN conjunct1]
  have "\<forall>r \<in> set (game_rooms (run onlineWorld actions)). (status r = finished) = (r_winner r \<noteq> None)" .
  moreover from fin have "\<forall>r \<in> set (game_rooms (run onlineWorld actions)). status r = finished"
    by (metis (no_types, lifting) image_set insert_iff list.simps(15) imageI empty_iff empty_set)
  ultimately have "\<forall>r \<in> set (game_rooms (run onlineWorld actions)). r_winner r \<noteq> None"
    by blast
  with empty fin show ?thesis unfolding actions_def by (simp add: list_all_iff)
qed

section \<open>Properties of a reset\<close>

text \<open>
  C10. From every state, \<open>resetGame\<close> leaves a board of nine empty cells, X to move, no
  winner and a move count of 0, and leaves the players (names and scores) and the game
  history as they were. In online mode with a room code it writes that cleared state,
  with status \<^verbatim>\<open>playing\<close>, to every row its request reaches, whatever status the row had.
\<close>

theorem resetGame_clears:
  "board (app (resetGame w)) = replicate 9 Null
   \<and> currentPlayer (app (resetGame w)) = PX
   \<and> winner (app (resetGame w)) = None
   \<and> moveCount (app (resetGame w)) = 0
   \<and> players (app (resetGame w)) = players (app w)
   \<and> gameHistory (app (resetGame w)) = gameHistory (app w)
   \<and> game_rooms (resetGame w) =
       map (\<lambda>r. if reached w r
                then r\<lparr>r_board := replicate 9 Null, current_player := PX, r_winner := None,
                       status := playing\<rparr>
                else r) (game_rooms w)"
  by (simp add: resetGame_game_rooms resetValues_def) (simp add: resetGame_def)

theorem resetGame_clears_witness:
  "map status (game_rooms (handleClick 8 30 hostToWin)) = [finished]
   \<and> game_rooms (resetGame (handleClick 8 30 hostToWin)) =
       [\<lparr>code = ''AB12CD'', host_id = ''host'', guest_id = None,
         r_board = [Null, Null, Null, Null, Null, Null, Null, Null, Null],
         current_player = PX, r_winner = None, status = playing\<rparr>]
   \<and> map status (game_rooms hostWorld) = [waiting]
   \<and> map status (game_rooms (resetGame hostWorld)) = [playing]
   \<and> map (score \<circ> players (app (resetGame (handleClick 8 30 hostToWin)))) [PX, PO] = [1, 0]
   \<and> length (gameHistory (app (resetGame (handleClick 8 30 hostToWin)))) = 1"
proof -
  note a = resetGame_clears [of "handleClick 8 30 hostToWin"]
  note b = resetGame_clears [of hostWorld]
  have a1: "game_rooms (resetGame (handleClick 8 30 hostToWin)) =
       [\<lparr>code = ''AB12CD'', host_id = ''host'', guest_id = None,
         r_board = [Null, Null, Null, Null, Null, Null, Null, Null, Null],
         current_player = PX, r_winner = None, status = playing\<rparr>]"
    unfolding a [THEN conjunct2, THEN conjunct2, THEN conjunct2, THEN conjunct2, THEN conjunct2,
        THEN conjunct2]
    by code_simp
  have b1: "map status (game_rooms (resetGame hostWorld)) = [playing]"
    unfolding b [THEN conjunct2, THEN conjunct2, THEN conjunct2, THEN conjunct2, THEN conjunct2,
        THEN conjunct2]
    by code_simp
  from a have keep: "players (app (resetGame (handleClick 8 30 hostToWin)))
        = players (app (handleClick 8 30 hostToWin))"
    "gameHistory (app (resetGame (handleClick 8 30 hostToWin)))
        = gameHistory (app (handleClick 8 30 hostToWin))"
    by blast+
  have c: "map (score \<circ> players (app (resetGame (handleClick 8 30 hostToWin)))) [PX, PO] = [1, 0]"
    unfolding keep by code_simp
  have d: "length (gameHistory (app (resetGame (handleClick 8 30 hostToWin)))) = 1"
    unfolding keep by code_simp
  have e: "map status (game_rooms (handleClick 8 30 hostToWin)) = [finished]"
    "map status (game_rooms hostWorld) = [waiting]"
    by code_simp+
  from a1 b1 c d e show ?thesis by simp
qed

end
